theory Spec2Isabelle
  imports Main "HOL-Library.AList"
begin

section \<open>The header file\<close>

text \<open>
  The repository holds one file, \<^verbatim>\<open>secrets.example.h\<close>. It has no functions: it is
  text for the C preprocessor. The embedding keeps the file as the characters it is made
  of, one source line per line below (a line feed after each but the last, which the file
  does not terminate), and gives it meaning through a small model of the preprocessor:
  line splitting, comment removal, the two directives the file uses, a macro table.
\<close>

definition header_name :: string where
  "header_name = ''secrets.example.h''"

definition header_text :: string where
  \<open>header_text =
    ''// secrets.example.h\<newline>'' @
    ''// Copy to secrets.h and fill in your real credentials. Do NOT commit secrets.h to source control.\<newline>'' @
    ''\<newline>'' @
    ''#pragma once\<newline>'' @
    ''\<newline>'' @
    ''// Wi-Fi credentials\<newline>'' @
    ''#define WIFI_SSID "YOUR_WIFI_SSID"\<newline>'' @
    ''#define WIFI_PASS "YOUR_WIFI_PASSWORD"\<newline>'' @
    ''\<newline>'' @
    ''// Webhook URL to call when water is detected\<newline>'' @
    ''#define WEBHOOK_URL "https://maker.ifttt.com/trigger/water_detected/with/key/YOUR_IFTTT_KEY"''\<close>

text \<open>The source files of the repository, by name.\<close>

definition repository :: "(string \<times> string) list" where
  "repository = [(header_name, header_text)]"

section \<open>Characters and lines\<close>

definition newline :: char where
  "newline = CHR 0x0A"

definition dquote :: char where
  "dquote = CHR 0x22"

definition backslash :: char where
  "backslash = CHR 0x5C"

definition is_space :: "char \<Rightarrow> bool" where
  "is_space c = (c = CHR '' '' \<or> c = CHR 0x09 \<or> c = CHR 0x0D)"

definition is_digit :: "char \<Rightarrow> bool" where
  "is_digit c = (c \<in> set ''0123456789'')"

definition is_ident_char :: "char \<Rightarrow> bool" where
  "is_ident_char c =
     (c \<in> set ''abcdefghijklmnopqrstuvwxyzABCDEFGHIJKLMNOPQRSTUVWXYZ_0123456789'')"

text \<open>
  The lines of a text: a line feed ends a line, and what follows the last line feed is a
  line of its own when it is not empty.
\<close>

fun split_lines :: "string \<Rightarrow> string list" where
  "split_lines [] = []"
| "split_lines (c # cs) =
     (if c = newline then [] # split_lines cs
      else (case split_lines cs of
              [] \<Rightarrow> [[c]]
            | l # ls \<Rightarrow> (c # l) # ls))"

definition trim :: "string \<Rightarrow> string" where
  "trim s = rev (dropWhile is_space (rev (dropWhile is_space s)))"

section \<open>The preprocessor\<close>

text \<open>
  A \<^verbatim>\<open>//\<close> comment runs to the end of its line, unless the two slashes stand inside a
  string literal (the webhook URL has them there). The flag says whether the scan is
  inside a literal; a backslash inside a literal protects the character after it.
\<close>

fun strip_comment :: "bool \<Rightarrow> string \<Rightarrow> string" where
  "strip_comment q [] = []"
| "strip_comment False [c] = [c]"
| "strip_comment False (c # d # cs) =
     (if c = CHR ''/'' \<and> d = CHR ''/'' then []
      else c # strip_comment (c = dquote) (d # cs))"
| "strip_comment True [c] = [c]"
| "strip_comment True (c # d # cs) =
     (if c = backslash then c # d # strip_comment True cs
      else if c = dquote then c # strip_comment False (d # cs)
      else c # strip_comment True (d # cs))"

text \<open>
  What a line is to the preprocessor. Only the directives the header uses are
  interpreted: \<^verbatim>\<open>#pragma once\<close> and the object-like \<^verbatim>\<open>#define\<close>. Any other
  directive, and every line of program text, is kept as it stands.
\<close>

datatype line =
    Blank
  | Comment string
  | PragmaOnce
  | Define string string
  | Directive string
  | Text string

definition parse_define :: "string \<Rightarrow> string \<Rightarrow> line" where
  "parse_define d rest =
     (let name = takeWhile is_ident_char rest;
          after = dropWhile is_ident_char rest
      in if name = [] then Directive d
         else if is_digit (hd name) then Directive d
         else if after = [] then Define name []
         else if is_space (hd after) then Define name (trim after)
         else Directive d)"

definition parse_directive :: "string \<Rightarrow> line" where
  "parse_directive d =
     (let s = dropWhile is_space d;
          kw = takeWhile is_ident_char s;
          rest = dropWhile is_space (dropWhile is_ident_char s)
      in if kw = ''pragma'' \<and> rest = ''once'' then PragmaOnce
         else if kw = ''define'' then parse_define d rest
         else Directive d)"

definition parse_line :: "string \<Rightarrow> line" where
  "parse_line l =
     (let t = trim (strip_comment False l)
      in if t = [] then (if trim l = [] then Blank else Comment (trim l))
         else if hd t = CHR ''#'' then parse_directive (tl t)
         else Text t)"

text \<open>
  A replacement text is a string literal when it is a double quote, characters none of
  which is an unprotected double quote, and a closing double quote with nothing after
  it. The result is the text between the quotes.
\<close>

fun literal_body :: "string \<Rightarrow> string option" where
  "literal_body [] = None"
| "literal_body [c] = (if c = dquote then Some [] else None)"
| "literal_body (c # d # cs) =
     (if c = dquote then None
      else if c = backslash then map_option (\<lambda>r. c # d # r) (literal_body cs)
      else map_option (\<lambda>r. c # r) (literal_body (d # cs)))"

fun string_literal :: "string \<Rightarrow> string option" where
  "string_literal [] = None"
| "string_literal (c # cs) = (if c = dquote then literal_body cs else None)"

text \<open>
  The state of a translation unit while it is preprocessed: the macro table, the files
  marked by \<^verbatim>\<open>#pragma once\<close>, and the lines handed on to the compiler proper.
  A later definition of a name replaces the earlier one, as the ESP32 toolchain's
  preprocessor does (with a warning).
\<close>

record tu =
  macros :: "(string \<times> string) list"
  once :: "string list"
  passed :: "string list"

definition tu_init :: tu where
  "tu_init = \<lparr>macros = [], once = [], passed = []\<rparr>"

fun exec_line :: "string \<Rightarrow> line \<Rightarrow> tu \<Rightarrow> tu" where
  "exec_line f Blank st = st"
| "exec_line f (Comment c) st = st"
| "exec_line f PragmaOnce st = st\<lparr>once := List.insert f (once st)\<rparr>"
| "exec_line f (Define n b) st = st\<lparr>macros := AList.update n b (macros st)\<rparr>"
| "exec_line f (Directive d) st = st\<lparr>passed := passed st @ [CHR ''#'' # d]\<rparr>"
| "exec_line f (Text t) st = st\<lparr>passed := passed st @ [t]\<rparr>"

definition exec_lines :: "string \<Rightarrow> line list \<Rightarrow> tu \<Rightarrow> tu" where
  "exec_lines f ls st = fold (exec_line f) ls st"

text \<open>Including a file: skipped when the file is marked, read line by line otherwise.\<close>

definition include_file :: "string \<Rightarrow> string list \<Rightarrow> tu \<Rightarrow> tu" where
  "include_file f ls st =
     (if f \<in> set (once st) then st else exec_lines f (map parse_line ls) st)"

definition header_lines :: "string list" where
  "header_lines = split_lines header_text"

definition include_header :: "tu \<Rightarrow> tu" where
  "include_header st = include_file header_name header_lines st"

text \<open>The value of a constant: the text of the string literal its name is defined as.\<close>

definition macro_value :: "(string \<times> string) list \<Rightarrow> string \<Rightarrow> string option" where
  "macro_value tbl n =
     (case map_of tbl n of None \<Rightarrow> None | Some b \<Rightarrow> string_literal b)"

text \<open>The names the \<^verbatim>\<open>#define\<close> lines of a file define, in the order of the lines.\<close>

fun define_names :: "line list \<Rightarrow> string list" where
  "define_names [] = []"
| "define_names (Define n b # ls) = n # define_names ls"
| "define_names (l # ls) = define_names ls"

text \<open>
  Lines that leave no trace in the translation unit but the mark of
  \<^verbatim>\<open>#pragma once\<close>, and lines that reach the compiler.
\<close>

fun is_layout :: "line \<Rightarrow> bool" where
  "is_layout Blank = True"
| "is_layout (Comment c) = True"
| "is_layout PragmaOnce = True"
| "is_layout l = False"

fun is_program :: "line \<Rightarrow> bool" where
  "is_program (Directive d) = True"
| "is_program (Text t) = True"
| "is_program l = False"

section \<open>The configuration the header stands for\<close>

text \<open>
  The program that includes the (copied) header reads three names. The record is what
  it gets: the values of the three constants, when each is a string literal.
\<close>

record config =
  wifi_ssid :: string
  wifi_pass :: string
  webhook_url :: string

definition read_config :: "(string \<times> string) list \<Rightarrow> config option" where
  "read_config tbl =
     (case macro_value tbl ''WIFI_SSID'' of
        None \<Rightarrow> None
      | Some s \<Rightarrow>
          (case macro_value tbl ''WIFI_PASS'' of
             None \<Rightarrow> None
           | Some p \<Rightarrow>
               (case macro_value tbl ''WEBHOOK_URL'' of
                  None \<Rightarrow> None
                | Some u \<Rightarrow> Some \<lparr>wifi_ssid = s, wifi_pass = p, webhook_url = u\<rparr>)))"

definition header_config :: "config option" where
  "header_config = read_config (macros (include_header tu_init))"

definition non_empty :: "config \<Rightarrow> bool" where
  "non_empty c = (wifi_ssid c \<noteq> [] \<and> wifi_pass c \<noteq> [] \<and> webhook_url c \<noteq> [])"

text \<open>Tests on strings: a prefix, a substring, and the path segment after a prefix.\<close>

fun starts_with :: "string \<Rightarrow> string \<Rightarrow> bool" where
  "starts_with [] s = True"
| "starts_with (p # ps) [] = False"
| "starts_with (p # ps) (c # cs) = (p = c \<and> starts_with ps cs)"

fun contains_str :: "string \<Rightarrow> string \<Rightarrow> bool" where
  "contains_str needle [] = (needle = [])"
| "contains_str needle (c # cs) = (starts_with needle (c # cs) \<or> contains_str needle cs)"

definition segment_after :: "string \<Rightarrow> string \<Rightarrow> string" where
  "segment_after prefix s = takeWhile (\<lambda>c. c \<noteq> CHR ''/'') (drop (length prefix) s)"

section \<open>Filling the template in\<close>

text \<open>
  The header is a template: its user copies it and writes a value of their own between
  the quotes of a definition. On a line that defines the name \<open>n\<close> the edit writes the
  line anew with the value \<open>v\<close>; every other line stays as it is.
\<close>

definition quote :: "string \<Rightarrow> string" where
  "quote v = dquote # v @ [dquote]"

definition set_literal :: "string \<Rightarrow> string \<Rightarrow> string \<Rightarrow> string" where
  "set_literal n v l =
     (case parse_line l of
        Define k b \<Rightarrow> if k = n then ''#define '' @ n @ '' '' @ quote v else l
      | _ \<Rightarrow> l)"

text \<open>
  The edit is an edit of the file: the lines are written out again, a line feed between
  each two, and the result is the text the preprocessor reads and splits anew. A value
  can be written between the quotes as it is when it has no double quote, no backslash
  and no line end in it.
\<close>

fun join_lines :: "string list \<Rightarrow> string" where
  "join_lines [] = []"
| "join_lines [l] = l"
| "join_lines (l # k # ls) = l @ newline # join_lines (k # ls)"

definition edit_text :: "string \<Rightarrow> string \<Rightarrow> string \<Rightarrow> string" where
  "edit_text n v text = join_lines (map (set_literal n v) (split_lines text))"

definition literal_char :: "char \<Rightarrow> bool" where
  "literal_char c = (c \<noteq> dquote \<and> c \<noteq> backslash \<and> c \<noteq> newline \<and> c \<noteq> CHR 0x0D)"

definition literal_text :: "string \<Rightarrow> bool" where
  "literal_text v = list_all literal_char v"

section \<open>Translation units\<close>

text \<open>
  A translation unit that uses the header: a sequence of lines of its own and of
  inclusions of the header. An inclusion is an item of its own (\<open>parse_line\<close> does not
  interpret the directive). The lines of the unit belong to the file \<open>f\<close>; the header is
  read from the lines \<open>hl\<close>, under its name.
\<close>

datatype item =
    IncludeHeader
  | Line string

fun run_unit :: "string list \<Rightarrow> string \<Rightarrow> item list \<Rightarrow> tu \<Rightarrow> tu" where
  "run_unit hl f [] st = st"
| "run_unit hl f (IncludeHeader # its) st = run_unit hl f its (include_file header_name hl st)"
| "run_unit hl f (Line l # its) st = run_unit hl f its (exec_line f (parse_line l) st)"

text \<open>The same unit with every inclusion of the header but the first taken out.\<close>

fun drop_includes :: "item list \<Rightarrow> item list" where
  "drop_includes [] = []"
| "drop_includes (IncludeHeader # its) = drop_includes its"
| "drop_includes (Line l # its) = Line l # drop_includes its"

fun first_only :: "item list \<Rightarrow> item list" where
  "first_only [] = []"
| "first_only (IncludeHeader # its) = IncludeHeader # drop_includes its"
| "first_only (Line l # its) = Line l # first_only its"

text \<open>The header without its guard, to compare with.\<close>

definition unguarded_lines :: "string list" where
  "unguarded_lines = filter (\<lambda>l. parse_line l \<noteq> PragmaOnce) header_lines"

section \<open>The header, read\<close>

lemma header_lines_eq:
  \<open>header_lines =
    [''// secrets.example.h'',
     ''// Copy to secrets.h and fill in your real credentials. Do NOT commit secrets.h to source control.'',
     '''',
     ''#pragma once'',
     '''',
     ''// Wi-Fi credentials'',
     ''#define WIFI_SSID "YOUR_WIFI_SSID"'',
     ''#define WIFI_PASS "YOUR_WIFI_PASSWORD"'',
     '''',
     ''// Webhook URL to call when water is detected'',
     ''#define WEBHOOK_URL "https://maker.ifttt.com/trigger/water_detected/with/key/YOUR_IFTTT_KEY"'']\<close>
  unfolding header_lines_def header_text_def by code_simp

lemma parsed_header:
  \<open>map parse_line header_lines =
    [Comment ''// secrets.example.h'',
     Comment ''// Copy to secrets.h and fill in your real credentials. Do NOT commit secrets.h to source control.'',
     Blank,
     PragmaOnce,
     Blank,
     Comment ''// Wi-Fi credentials'',
     Define ''WIFI_SSID'' ''"YOUR_WIFI_SSID"'',
     Define ''WIFI_PASS'' ''"YOUR_WIFI_PASSWORD"'',
     Blank,
     Comment ''// Webhook URL to call when water is detected'',
     Define ''WEBHOOK_URL'' ''"https://maker.ifttt.com/trigger/water_detected/with/key/YOUR_IFTTT_KEY"'']\<close>
  unfolding header_lines_eq by code_simp

lemma strip_comment_prefix:
  "list_all (\<lambda>c. c \<noteq> CHR ''/'' \<and> c \<noteq> dquote) p \<Longrightarrow>
   strip_comment False (p @ r) = p @ strip_comment False r"
proof (induction p)
  case Nil
  then show ?case by simp
next
  case (Cons c p)
  then show ?case by (cases "p @ r") auto
qed

lemma strip_comment_quote:
  "\<exists>x. strip_comment False (quote v) = dquote # x"
  by (cases v) (auto simp: quote_def dquote_def)

lemma ident_not_special:
  "is_ident_char c \<Longrightarrow> c \<noteq> CHR ''/'' \<and> c \<noteq> dquote \<and> \<not> is_space c \<and> c \<noteq> CHR ''#''"
  by (auto simp: is_ident_char_def dquote_def is_space_def)

lemma trim_keep:
  "p \<noteq> [] \<Longrightarrow> \<not> is_space (hd p) \<Longrightarrow> \<not> is_space c \<Longrightarrow> \<exists>y. trim (p @ c # x) = p @ c # y"
proof -
  assume p: "p \<noteq> []" "\<not> is_space (hd p)" and c: "\<not> is_space c"
  have l: "dropWhile is_space (p @ c # x) = p @ c # x"
    using p by (cases p) auto
  have "\<exists>z. dropWhile is_space (rev x @ c # rev p) = z @ c # rev p"
  proof (cases "\<forall>a\<in>set (rev x). is_space a")
    case True
    then have "dropWhile is_space (rev x @ c # rev p) = [] @ c # rev p"
      using c by (simp add: dropWhile_append)
    then show ?thesis by blast
  next
    case False
    then have "dropWhile is_space (rev x @ c # rev p) = dropWhile is_space (rev x) @ c # rev p"
      by (auto simp: dropWhile_append)
    then show ?thesis by blast
  qed
  then obtain z where "dropWhile is_space (rev x @ c # rev p) = z @ c # rev p" ..
  then have "trim (p @ c # x) = p @ c # rev z"
    by (simp add: trim_def l)
  then show ?thesis ..
qed


lemma parse_define_name:
  "parse_define d rest = Define k b \<Longrightarrow> k \<noteq> [] \<and> list_all is_ident_char k \<and> \<not> is_digit (hd k)"
  unfolding parse_define_def Let_def
  by (auto split: if_splits simp: list_all_iff dest: set_takeWhileD)

lemma parse_directive_name:
  "parse_directive d = Define k b \<Longrightarrow> k \<noteq> [] \<and> list_all is_ident_char k \<and> \<not> is_digit (hd k)"
  unfolding parse_directive_def Let_def
  by (auto split: if_splits dest: parse_define_name)

lemma parse_line_name:
  "parse_line l = Define k b \<Longrightarrow> k \<noteq> [] \<and> list_all is_ident_char k \<and> \<not> is_digit (hd k)"
  unfolding parse_line_def Let_def
  by (auto split: if_splits dest: parse_directive_name)

lemma takeWhile_ident:
  "list_all is_ident_char k \<Longrightarrow> \<not> is_ident_char c \<Longrightarrow> takeWhile is_ident_char (k @ c # r) = k"
  by (induction k) auto

lemma dropWhile_ident:
  "list_all is_ident_char k \<Longrightarrow> \<not> is_ident_char c \<Longrightarrow> dropWhile is_ident_char (k @ c # r) = c # r"
  by (induction k) auto

lemma parse_define_line:
  assumes k: "k \<noteq> []" "list_all is_ident_char k" "\<not> is_digit (hd k)"
  shows "\<exists>b. parse_line (''#define '' @ k @ '' '' @ quote v) = Define k b"
proof -
  let ?p = "''#define '' @ k @ '' ''"
  have k_ok: "list_all (\<lambda>c. c \<noteq> CHR ''/'' \<and> c \<noteq> dquote) k"
    using k(2) ident_not_special by (auto simp: list_all_iff)
  have "list_all (\<lambda>c. c \<noteq> CHR ''/'' \<and> c \<noteq> dquote) ?p"
    using k_ok by (simp add: dquote_def)
  then have "strip_comment False (?p @ quote v) = ?p @ strip_comment False (quote v)"
    by (rule strip_comment_prefix)
  moreover obtain x where "strip_comment False (quote v) = dquote # x"
    using strip_comment_quote by blast
  ultimately have s: "strip_comment False (?p @ quote v) = ?p @ dquote # x"
    by simp
  have "\<exists>y. trim (?p @ dquote # x) = ?p @ dquote # y"
    by (rule trim_keep) (simp_all add: is_space_def dquote_def)
  then obtain y where t: "trim (strip_comment False (?p @ quote v)) = ?p @ dquote # y"
    using s by auto
  have sp: "\<not> is_ident_char (CHR '' '')" "is_space (CHR '' '')"
    by (simp_all add: is_ident_char_def is_space_def)
  have hk: "\<not> is_space (hd k)"
    using k(1,2) ident_not_special by (cases k) auto
  have kw: "takeWhile is_ident_char (''define '' @ k @ '' '' @ dquote # y) = ''define''"
    by (simp add: is_ident_char_def)
  have dw: "dropWhile is_ident_char (''define '' @ k @ '' '' @ dquote # y) = '' '' @ k @ '' '' @ dquote # y"
    by (simp add: is_ident_char_def)
  have rest: "dropWhile is_space ('' '' @ k @ '' '' @ dquote # y) = k @ '' '' @ dquote # y"
    using hk k(1) by (cases k) (auto simp: is_space_def)
  have d0: "dropWhile is_space (''define '' @ k @ '' '' @ dquote # y) = ''define '' @ k @ '' '' @ dquote # y"
    by (simp add: is_space_def)
  have pd: "parse_define d (k @ '' '' @ dquote # y) = Define k (trim ('' '' @ dquote # y))" for d
    using k sp takeWhile_ident [of k "CHR '' ''" "dquote # y"]
      dropWhile_ident [of k "CHR '' ''" "dquote # y"]
    by (simp add: parse_define_def Let_def)
  have "parse_directive (''define '' @ k @ '' '' @ dquote # y) = Define k (trim ('' '' @ dquote # y))"
    unfolding parse_directive_def Let_def d0 kw dw rest
    using pd by simp
  then have "parse_line (?p @ quote v) = Define k (trim ('' '' @ dquote # y))"
    unfolding parse_line_def Let_def t by simp
  then show ?thesis by simp
qed

lemma set_literal_parse:
  "parse_line (set_literal n v l) =
     (case parse_line l of
        Define k b \<Rightarrow> if k = n then parse_line (set_literal n v l) else Define k b
      | x \<Rightarrow> x)"
  by (auto simp: set_literal_def split: line.splits)

lemma set_literal_cases:
  "parse_line (set_literal n v l) = parse_line l \<or>
   (\<exists>b b'. parse_line l = Define n b \<and> parse_line (set_literal n v l) = Define n b')"
proof (cases "parse_line l")
  case (Define k b)
  show ?thesis
  proof (cases "k = n")
    case True
    with Define have "k \<noteq> [] \<and> list_all is_ident_char k \<and> \<not> is_digit (hd k)"
      using parse_line_name by blast
    then obtain b' where "parse_line (''#define '' @ k @ '' '' @ quote v) = Define k b'"
      using parse_define_line by blast
    with Define True show ?thesis by (simp add: set_literal_def)
  next
    case False
    with Define show ?thesis by (simp add: set_literal_def)
  qed
qed (simp_all add: set_literal_def)

lemma include_fresh:
  "header_name \<notin> set (once st) \<Longrightarrow>
   include_header st =
     st\<lparr>macros :=
          AList.update ''WEBHOOK_URL''
            (quote ''https://maker.ifttt.com/trigger/water_detected/with/key/YOUR_IFTTT_KEY'')
            (AList.update ''WIFI_PASS'' (quote ''YOUR_WIFI_PASSWORD'')
              (AList.update ''WIFI_SSID'' (quote ''YOUR_WIFI_SSID'') (macros st))),
        once := List.insert header_name (once st)\<rparr>"
  by (simp add: include_header_def include_file_def exec_lines_def parsed_header
      quote_def dquote_def)

lemma include_marked:
  "header_name \<in> set (once st) \<Longrightarrow> include_header st = st"
  by (simp add: include_header_def include_file_def)


lemma header_macros:
  "macros (include_header tu_init) =
     [(''WIFI_SSID'', quote ''YOUR_WIFI_SSID''),
      (''WIFI_PASS'', quote ''YOUR_WIFI_PASSWORD''),
      (''WEBHOOK_URL'',
       quote ''https://maker.ifttt.com/trigger/water_detected/with/key/YOUR_IFTTT_KEY'')]"
  by (simp add: include_fresh tu_init_def)

lemma literal_body_plain:
  "list_all (\<lambda>c. c \<noteq> dquote \<and> c \<noteq> backslash) v \<Longrightarrow> literal_body (v @ [dquote]) = Some v"
proof (induction v)
  case Nil
  then show ?case by simp
next
  case (Cons c v)
  then show ?case by (cases "v @ [dquote]") auto
qed

lemma string_literal_quote:
  "list_all (\<lambda>c. c \<noteq> dquote \<and> c \<noteq> backslash) v \<Longrightarrow> string_literal (quote v) = Some v"
  by (simp add: quote_def literal_body_plain)

lemma header_values:
  "macro_value (macros (include_header tu_init)) ''WIFI_SSID'' = Some ''YOUR_WIFI_SSID''"
  "macro_value (macros (include_header tu_init)) ''WIFI_PASS'' = Some ''YOUR_WIFI_PASSWORD''"
  "macro_value (macros (include_header tu_init)) ''WEBHOOK_URL'' =
     Some ''https://maker.ifttt.com/trigger/water_detected/with/key/YOUR_IFTTT_KEY''"
  by (simp_all add: macro_value_def header_macros string_literal_quote dquote_def backslash_def)

lemma exec_line_lookup:
  "map_of (macros st) m = map_of (macros st') m \<Longrightarrow>
   map_of (macros (exec_line f x st)) m = map_of (macros (exec_line f x st')) m"
  by (cases x) (simp_all add: update_conv)

lemma exec_edited_lookup:
  assumes "m \<noteq> n" and "map_of (macros st) m = map_of (macros st') m"
  shows "map_of (macros (exec_line f (parse_line (set_literal n v l)) st)) m =
         map_of (macros (exec_line f (parse_line l) st')) m"
proof -
  from set_literal_cases [of n v l] show ?thesis
  proof
    assume "parse_line (set_literal n v l) = parse_line l"
    with exec_line_lookup [OF assms(2)] show ?thesis by simp
  next
    assume "\<exists>b b'. parse_line l = Define n b \<and> parse_line (set_literal n v l) = Define n b'"
    with assms show ?thesis by (auto simp: update_conv)
  qed
qed

lemma exec_edited_once:
  "once (exec_line f (parse_line (set_literal n v l)) st) = once (exec_line f (parse_line l) st)"
  using set_literal_cases [of n v l] by auto

lemma fold_edited_lookup:
  "m \<noteq> n \<Longrightarrow> map_of (macros st) m = map_of (macros st') m \<Longrightarrow>
   map_of (macros (fold (exec_line f) (map (parse_line \<circ> set_literal n v) ls) st)) m =
   map_of (macros (fold (exec_line f) (map parse_line ls) st')) m"
proof (induction ls arbitrary: st st')
  case Nil
  then show ?case by simp
next
  case (Cons l ls)
  have "map_of (macros (exec_line f (parse_line (set_literal n v l)) st)) m =
        map_of (macros (exec_line f (parse_line l) st')) m"
    using Cons.prems by (rule exec_edited_lookup)
  from Cons.IH [OF Cons.prems(1) this] show ?case by simp
qed

lemma header_config_eq:
  "header_config =
     Some \<lparr>wifi_ssid = ''YOUR_WIFI_SSID'',
           wifi_pass = ''YOUR_WIFI_PASSWORD'',
           webhook_url =
             ''https://maker.ifttt.com/trigger/water_detected/with/key/YOUR_IFTTT_KEY''\<rparr>"
  by (simp add: header_config_def read_config_def header_values)

lemma header_passes_nothing:
  "passed (include_header st) = passed st"
  by (cases "header_name \<in> set (once st)") (simp_all add: include_marked include_fresh)

section \<open>The edited header, read\<close>

lemma split_lines_single:
  "newline \<notin> set l \<Longrightarrow> l \<noteq> [] \<Longrightarrow> split_lines l = [l]"
proof (induction l)
  case Nil
  then show ?case by simp
next
  case (Cons c l)
  then show ?case by (cases l) auto
qed

lemma split_lines_append:
  "newline \<notin> set l \<Longrightarrow> split_lines (l @ newline # r) = l # split_lines r"
  by (induction l) auto

lemma split_join_lines:
  "list_all (\<lambda>l. newline \<notin> set l) ls \<Longrightarrow> ls \<noteq> [] \<Longrightarrow> last ls \<noteq> [] \<Longrightarrow>
   split_lines (join_lines ls) = ls"
proof (induction ls rule: join_lines.induct)
  case 1
  then show ?case by simp
next
  case (2 l)
  then show ?case by (simp add: split_lines_single)
next
  case (3 l k ls)
  then show ?case by (simp add: split_lines_append)
qed

lemma ident_not_newline:
  "is_ident_char c \<Longrightarrow> c \<noteq> newline"
  by (auto simp: is_ident_char_def newline_def)

lemma set_literal_no_newline:
  assumes "newline \<notin> set l" and "literal_text v"
  shows "newline \<notin> set (set_literal n v l)"
proof (cases "parse_line l")
  case (Define k b)
  then have "list_all is_ident_char k"
    using parse_line_name by blast
  then have "newline \<notin> set k"
    using ident_not_newline by (auto simp: list_all_iff)
  moreover have "newline \<notin> set v"
    using assms(2) by (auto simp: literal_text_def literal_char_def list_all_iff)
  ultimately show ?thesis
    using Define assms(1) by (auto simp: set_literal_def quote_def newline_def dquote_def)
qed (simp_all add: set_literal_def assms(1))

lemma set_literal_not_empty:
  "l \<noteq> [] \<Longrightarrow> set_literal n v l \<noteq> []"
  by (simp add: set_literal_def split: line.splits)

lemma header_lines_plain:
  "list_all (\<lambda>l. newline \<notin> set l) header_lines" "header_lines \<noteq> []" "last header_lines \<noteq> []"
  unfolding header_lines_eq by (simp_all add: newline_def)

lemma edited_header_lines:
  assumes "literal_text v"
  shows "split_lines (edit_text n v header_text) = map (set_literal n v) header_lines"
proof -
  have "list_all (\<lambda>l. newline \<notin> set l) (map (set_literal n v) header_lines)"
    using header_lines_plain(1) assms by (simp add: list_all_iff set_literal_no_newline)
  moreover have "map (set_literal n v) header_lines \<noteq> []"
    using header_lines_plain(2) by simp
  moreover have "last (map (set_literal n v) header_lines) \<noteq> []"
    using header_lines_plain(2,3) by (simp add: last_map set_literal_not_empty)
  ultimately have "split_lines (join_lines (map (set_literal n v) header_lines)) =
      map (set_literal n v) header_lines"
    by (rule split_join_lines)
  then show ?thesis by (simp add: edit_text_def header_lines_def)
qed


lemma trim_id:
  "s \<noteq> [] \<Longrightarrow> \<not> is_space (hd s) \<Longrightarrow> \<not> is_space (last s) \<Longrightarrow> trim s = s"
proof -
  assume s: "s \<noteq> []" "\<not> is_space (hd s)" "\<not> is_space (last s)"
  have "dropWhile is_space s = s"
    using s(1,2) by (cases s) auto
  moreover have "dropWhile is_space (rev s) = rev s"
    using s(1,3) by (cases "rev s") (auto simp: last_rev [symmetric] hd_rev)
  ultimately show ?thesis by (simp add: trim_def)
qed

lemma strip_comment_literal:
  "literal_text v \<Longrightarrow> strip_comment True (v @ [dquote]) = v @ [dquote]"
proof (induction v)
  case Nil
  then show ?case by simp
next
  case (Cons c v)
  then show ?case
    by (cases "v @ [dquote]") (auto simp: literal_text_def literal_char_def)
qed

lemma strip_comment_quote_exact:
  "literal_text v \<Longrightarrow> strip_comment False (quote v) = quote v"
  using strip_comment_literal [of v]
  by (cases "v @ [dquote]") (auto simp: quote_def dquote_def)

lemma trim_space_quote:
  "trim (CHR '' '' # quote v) = quote v"
proof -
  have "trim (quote v) = quote v"
    by (rule trim_id) (simp_all add: quote_def is_space_def dquote_def)
  moreover have "dropWhile is_space (CHR '' '' # quote v) = dropWhile is_space (quote v)"
    by (simp add: is_space_def)
  ultimately show ?thesis by (simp add: trim_def)
qed

lemma parse_define_line_exact:
  assumes k: "k \<noteq> []" "list_all is_ident_char k" "\<not> is_digit (hd k)"
    and v: "literal_text v"
  shows "parse_line (''#define '' @ k @ '' '' @ quote v) = Define k (quote v)"
proof -
  let ?p = "''#define '' @ k @ '' ''"
  have k_ok: "list_all (\<lambda>c. c \<noteq> CHR ''/'' \<and> c \<noteq> dquote) k"
    using k(2) ident_not_special by (auto simp: list_all_iff)
  have "list_all (\<lambda>c. c \<noteq> CHR ''/'' \<and> c \<noteq> dquote) ?p"
    using k_ok by (simp add: dquote_def)
  then have "strip_comment False (?p @ quote v) = ?p @ strip_comment False (quote v)"
    by (rule strip_comment_prefix)
  then have s: "strip_comment False (?p @ quote v) = ?p @ quote v"
    using v by (simp add: strip_comment_quote_exact)
  have "trim (?p @ quote v) = ?p @ quote v"
    by (rule trim_id) (simp_all add: is_space_def quote_def dquote_def)
  with s have t: "trim (strip_comment False (?p @ quote v)) = ?p @ quote v"
    by simp
  have sp: "\<not> is_ident_char (CHR '' '')" "is_space (CHR '' '')"
    by (simp_all add: is_ident_char_def is_space_def)
  have hk: "\<not> is_space (hd k)"
    using k(1,2) ident_not_special by (cases k) auto
  have kw: "takeWhile is_ident_char (''define '' @ k @ '' '' @ quote v) = ''define''"
    by (simp add: is_ident_char_def)
  have dw: "dropWhile is_ident_char (''define '' @ k @ '' '' @ quote v) = '' '' @ k @ '' '' @ quote v"
    by (simp add: is_ident_char_def)
  have rest: "dropWhile is_space ('' '' @ k @ '' '' @ quote v) = k @ '' '' @ quote v"
    using hk k(1) by (cases k) (auto simp: is_space_def)
  have d0: "dropWhile is_space (''define '' @ k @ '' '' @ quote v) = ''define '' @ k @ '' '' @ quote v"
    by (simp add: is_space_def)
  have pd: "parse_define d (k @ '' '' @ quote v) = Define k (quote v)" for d
    using k sp takeWhile_ident [of k "CHR '' ''" "quote v"]
      dropWhile_ident [of k "CHR '' ''" "quote v"] trim_space_quote [of v]
    by (simp add: parse_define_def Let_def)
  have "parse_directive (''define '' @ k @ '' '' @ quote v) = Define k (quote v)"
    unfolding parse_directive_def Let_def d0 kw dw rest
    using pd by simp
  then have "parse_line (?p @ quote v) = Define k (quote v)"
    unfolding parse_line_def Let_def t by simp
  then show ?thesis by simp
qed

lemma set_literal_defines:
  assumes "parse_line l = Define n b" and "literal_text v"
  shows "parse_line (set_literal n v l) = Define n (quote v)"
proof -
  from assms(1) have "n \<noteq> [] \<and> list_all is_ident_char n \<and> \<not> is_digit (hd n)"
    by (rule parse_line_name)
  then have "parse_line (''#define '' @ n @ '' '' @ quote v) = Define n (quote v)"
    using assms(2) parse_define_line_exact [of n v] by simp
  with assms(1) show ?thesis by (simp add: set_literal_def)
qed

lemma set_literal_other:
  "\<forall>b. parse_line l \<noteq> Define n b \<Longrightarrow> set_literal n v l = l"
  by (auto simp: set_literal_def split: line.splits)

lemma exec_other_lookup:
  "\<forall>b. x \<noteq> Define n b \<Longrightarrow> map_of (macros (exec_line f x st)) n = map_of (macros st) n"
  by (cases x) (auto simp: update_conv)

lemma fold_edited_defines:
  assumes "literal_text v"
  shows "n \<in> set (define_names (map parse_line ls)) \<or> map_of (macros st) n = Some (quote v) \<Longrightarrow>
    map_of (macros (fold (exec_line f) (map (parse_line \<circ> set_literal n v) ls) st)) n =
      Some (quote v)"
proof (induction ls arbitrary: st)
  case Nil
  then show ?case by simp
next
  case (Cons l ls)
  show ?case
  proof (cases "\<exists>b. parse_line l = Define n b")
    case True
    then obtain b where "parse_line l = Define n b" ..
    then have "parse_line (set_literal n v l) = Define n (quote v)"
      using assms by (rule set_literal_defines)
    then have "map_of (macros (exec_line f (parse_line (set_literal n v l)) st)) n = Some (quote v)"
      by (simp add: update_conv)
    then have "n \<in> set (define_names (map parse_line ls)) \<or>
        map_of (macros (exec_line f (parse_line (set_literal n v l)) st)) n = Some (quote v)"
      by simp
    from Cons.IH [OF this] show ?thesis by simp
  next
    case False
    then have other: "\<forall>b. parse_line l \<noteq> Define n b" by simp
    then have same: "set_literal n v l = l" by (rule set_literal_other)
    have keep: "map_of (macros (exec_line f (parse_line l) st)) n = map_of (macros st) n"
      using other by (rule exec_other_lookup)
    have "n \<in> set (define_names (map parse_line ls)) \<or> map_of (macros st) n = Some (quote v)"
      using Cons.prems other by (cases "parse_line l") auto
    then have "n \<in> set (define_names (map parse_line ls)) \<or>
        map_of (macros (exec_line f (parse_line l) st)) n = Some (quote v)"
      using keep by simp
    from Cons.IH [OF this] show ?thesis by (simp add: same)
  qed
qed

section \<open>Units that include the header\<close>

lemma literal_text_plain:
  "literal_text v \<Longrightarrow> list_all (\<lambda>c. c \<noteq> dquote \<and> c \<noteq> backslash) v"
  by (simp add: literal_text_def literal_char_def list_all_iff)





section \<open>The claims\<close>

text \<open>
  C1. The header defines exactly three constants, named \<^verbatim>\<open>WIFI_SSID\<close>,
  \<^verbatim>\<open>WIFI_PASS\<close> and \<^verbatim>\<open>WEBHOOK_URL\<close>, and no other: these are the names of its
  \<^verbatim>\<open>#define\<close> lines, and the names in the macro table of a translation unit that
  includes nothing else.
\<close>

theorem defines_exactly_three:
  "define_names (map parse_line header_lines) = [''WIFI_SSID'', ''WIFI_PASS'', ''WEBHOOK_URL''] \<and>
   map fst (macros (include_header tu_init)) = [''WIFI_SSID'', ''WIFI_PASS'', ''WEBHOOK_URL''] \<and>
   length (macros (include_header tu_init)) = 3"
  by (simp add: parsed_header header_macros)

text \<open>
  C2. Each of the three names is defined as a string literal: the replacement text of
  each is one literal, whose text is the placeholder written in the file.
\<close>

theorem constants_are_string_literals:
  "macro_value (macros (include_header tu_init)) ''WIFI_SSID'' = Some ''YOUR_WIFI_SSID'' \<and>
   macro_value (macros (include_header tu_init)) ''WIFI_PASS'' = Some ''YOUR_WIFI_PASSWORD'' \<and>
   macro_value (macros (include_header tu_init)) ''WEBHOOK_URL'' =
     Some ''https://maker.ifttt.com/trigger/water_detected/with/key/YOUR_IFTTT_KEY''"
  by (simp add: header_values)

text \<open>
  C3. All three constants are non-empty string literals: the header yields a
  configuration, and no field of it is the empty string.
\<close>

theorem header_config_non_empty:
  "\<exists>c. header_config = Some c \<and> non_empty c"
  by (simp add: header_config_eq non_empty_def)

text \<open>
  C4. The header has no executable behaviour. None of its lines is program text or a
  directive that reaches the compiler, and including it into a translation unit, in any
  state, leaves the text handed to the compiler as it was: whatever the meaning \<open>run\<close>
  of program text is, a program started in the state \<open>s\<close> ends in the same state with
  and without the inclusion. All the header does is done before the program exists, in
  the macro table.
\<close>

theorem header_not_executable:
  "filter is_program (map parse_line header_lines) = [] \<and>
   passed (include_header st) = passed st \<and>
   run (passed (include_header st)) s = run (passed st) s"
  by (simp add: parsed_header header_passes_nothing)

text \<open>
  C5. The value of \<^verbatim>\<open>WEBHOOK_URL\<close> is an IFTTT trigger endpoint: it starts with
  \<^verbatim>\<open>https://maker.ifttt.com/trigger/\<close>, and the path segment that follows, the name
  of the trigger, is \<^verbatim>\<open>water_detected\<close>.
\<close>

theorem webhook_url_ifttt_trigger:
  "\<exists>u. macro_value (macros (include_header tu_init)) ''WEBHOOK_URL'' = Some u \<and>
       starts_with ''https://maker.ifttt.com/trigger/'' u \<and>
       segment_after ''https://maker.ifttt.com/trigger/'' u = ''water_detected''"
  by (simp add: header_values segment_after_def)

text \<open>
  C6. The source of the repository is one file, the header, of 11 lines; apart from
  blank lines, comments and the \<^verbatim>\<open>#pragma once\<close> guard, its lines are the three
  definitions of placeholder values and nothing else.
\<close>

theorem repository_single_header:
  "map fst repository = [header_name] \<and>
   map_of repository header_name = Some header_text \<and>
   length (split_lines header_text) = 11 \<and>
   filter (\<lambda>l. \<not> is_layout l) (map parse_line (split_lines header_text)) =
     [Define ''WIFI_SSID'' (quote ''YOUR_WIFI_SSID''),
      Define ''WIFI_PASS'' (quote ''YOUR_WIFI_PASSWORD''),
      Define ''WEBHOOK_URL''
        (quote ''https://maker.ifttt.com/trigger/water_detected/with/key/YOUR_IFTTT_KEY'')]"
proof -
  have "length (split_lines header_text) = 11"
    using header_lines_eq by (simp add: header_lines_def)
  moreover have "map parse_line (split_lines header_text) = map parse_line header_lines"
    by (simp add: header_lines_def)
  ultimately show ?thesis
    by (simp add: repository_def parsed_header quote_def dquote_def)
qed

text \<open>
  C7. The three definitions are independent. When the user writes a value \<open>v\<close> between
  the quotes of the line that defines one of the constants (the name \<open>n\<close>) and the
  edited file is read again, that constant has the value \<open>v\<close>, and every other name \<open>m\<close>
  has the value it has with the header as shipped, in every state of the translation
  unit.
\<close>

theorem values_independent:
  assumes "literal_text v"
    and "n \<in> set (define_names (map parse_line header_lines))"
    and "m \<noteq> n"
  shows "macro_value (macros (include_file header_name
             (split_lines (edit_text n v header_text)) st)) m =
           macro_value (macros (include_header st)) m \<and>
         macro_value (macros (include_file header_name
             (split_lines (edit_text n v header_text)) tu_init)) n = Some v"
proof -
  have lines: "split_lines (edit_text n v header_text) = map (set_literal n v) header_lines"
    using assms(1) by (rule edited_header_lines)
  have "map_of (macros (fold (exec_line header_name)
            (map (parse_line \<circ> set_literal n v) header_lines) st)) m =
        map_of (macros (fold (exec_line header_name) (map parse_line header_lines) st)) m"
    using assms(3) fold_edited_lookup [of m n st st header_name v header_lines] by simp
  then have other: "macro_value (macros (include_file header_name
        (split_lines (edit_text n v header_text)) st)) m =
      macro_value (macros (include_header st)) m"
    by (simp add: lines macro_value_def include_header_def include_file_def exec_lines_def)
  have "map_of (macros (fold (exec_line header_name)
            (map (parse_line \<circ> set_literal n v) header_lines) tu_init)) n = Some (quote v)"
    using assms(2) fold_edited_defines [OF assms(1), of n header_lines tu_init header_name]
    by simp
  moreover have "string_literal (quote v) = Some v"
    using assms(1) by (simp add: string_literal_quote literal_text_plain)
  ultimately have "macro_value (macros (include_file header_name
        (split_lines (edit_text n v header_text)) tu_init)) n = Some v"
    by (simp add: lines macro_value_def include_file_def exec_lines_def tu_init_def)
  with other show ?thesis by simp
qed

theorem values_independent_witness:
  "literal_text ''hunter2'' \<and>
   ''WIFI_PASS'' \<in> set (define_names (map parse_line header_lines)) \<and>
   ''WIFI_SSID'' \<noteq> ''WIFI_PASS'' \<and>
   macro_value (macros (include_file header_name
       (split_lines (edit_text ''WIFI_PASS'' ''hunter2'' header_text)) tu_init)) ''WIFI_SSID'' =
     Some ''YOUR_WIFI_SSID'' \<and>
   macro_value (macros (include_file header_name
       (split_lines (edit_text ''WIFI_PASS'' ''hunter2'' header_text)) tu_init)) ''WIFI_PASS'' =
     Some ''hunter2''"
proof -
  have v: "literal_text ''hunter2''"
    by (simp add: literal_text_def literal_char_def dquote_def backslash_def newline_def)
  have n: "''WIFI_PASS'' \<in> set (define_names (map parse_line header_lines))"
    by (simp add: parsed_header)
  have m: "''WIFI_SSID'' \<noteq> ''WIFI_PASS''"
    by simp
  from values_independent [OF v n m, of tu_init] v n header_values(1)
  show ?thesis by simp
qed

text \<open>
  The condition on the value is needed, and the model sees why: a value with a double
  quote and a line feed in it ends the literal and starts a line, and the line it starts
  can define another constant.
\<close>

lemma unrestricted_edit_leaks:
  \<open>macro_value (macros (include_file header_name
       (split_lines (edit_text ''WEBHOOK_URL'' ''a"\<newline>#define WIFI_SSID "evil'' header_text))
       tu_init)) ''WIFI_SSID'' = Some ''evil''\<close>
  by code_simp



text \<open>
  It is the guard that decides. Without the line \<^verbatim>\<open>#pragma once\<close> the second
  inclusion reads the definitions again and undoes what the unit defined in between.
\<close>

lemma unguarded_not_idempotent:
  \<open>macro_value (macros (run_unit unguarded_lines ''main.cpp''
     [IncludeHeader, Line ''#define WIFI_SSID "home"'', IncludeHeader] tu_init)) ''WIFI_SSID'' =
     Some ''YOUR_WIFI_SSID'' \<and>
   macro_value (macros (run_unit unguarded_lines ''main.cpp''
     (first_only [IncludeHeader, Line ''#define WIFI_SSID "home"'', IncludeHeader]) tu_init))
     ''WIFI_SSID'' = Some ''home''\<close>
  by code_simp

text \<open>
  C9. Every value shipped in the template carries the marker \<^verbatim>\<open>YOUR_\<close>: the three
  values contain \<^verbatim>\<open>YOUR_WIFI_SSID\<close>, \<^verbatim>\<open>YOUR_WIFI_PASSWORD\<close> and
  \<^verbatim>\<open>YOUR_IFTTT_KEY\<close>, and every replacement text in the macro table contains
  \<^verbatim>\<open>YOUR_\<close>.
\<close>

theorem placeholders_marked:
  "(\<exists>c. header_config = Some c \<and>
        contains_str ''YOUR_WIFI_SSID'' (wifi_ssid c) \<and>
        contains_str ''YOUR_WIFI_PASSWORD'' (wifi_pass c) \<and>
        contains_str ''YOUR_IFTTT_KEY'' (webhook_url c) \<and>
        contains_str ''YOUR_'' (wifi_ssid c) \<and>
        contains_str ''YOUR_'' (wifi_pass c) \<and>
        contains_str ''YOUR_'' (webhook_url c)) \<and>
   list_all (\<lambda>d. contains_str ''YOUR_'' (snd d)) (macros (include_header tu_init))"
  by (simp add: header_config_eq header_macros quote_def)

text \<open>
  C10. Each of the three names is defined exactly once in the header, and the names
  defined are pairwise distinct: no constant is defined a second time.
\<close>

theorem names_defined_once:
  "count_list (define_names (map parse_line header_lines)) ''WIFI_SSID'' = 1 \<and>
   count_list (define_names (map parse_line header_lines)) ''WIFI_PASS'' = 1 \<and>
   count_list (define_names (map parse_line header_lines)) ''WEBHOOK_URL'' = 1 \<and>
   distinct (define_names (map parse_line header_lines))"
  by (simp add: parsed_header)

end
